theory Spec2Isabelle
  imports Complex_Main "HOL-Library.Word"
begin

section \<open>Quadrature rules of ESMC_Quadrature.h\<close>

text \<open>
  The header declares the abstract class \<open>intgRule\<close>, the classes \<open>arbq\<close>, \<open>barq\<close>,
  \<open>quadq\<close>, \<open>triq\<close>, \<open>hexq\<close>, \<open>tetraq\<close> derived from it, the point generator
  \<open>gauss_legendre\<close>, the dispatcher \<open>Topo2Intg\<close> and the class \<open>sideIntgFactory\<close>.
  Objects live in a store and are named by their addresses, since the caches and the
  factory map compare rules by pointer. A \<open>double\<close> is a value of an arbitrary type
  \<open>'d\<close>: the header only copies doubles, it never computes with them.
\<close>

subsection \<open>Data\<close>

text \<open>
  \<open>UInt\<close> is declared in ESMC_MeshTypes.h, which the header includes: an
  \<open>unsigned int\<close>, taken as 32 bits wide. Arithmetic on it wraps around.
\<close>

type_synonym UInt = "32 word"

type_synonym addr = nat

text \<open>
  Failures. \<open>Throw msg\<close> is the exception of \<open>Throw() << msg\<close>. \<open>UnknownTopology\<close>,
  \<open>OutOfRange\<close> and \<open>PreconditionFailure\<close> are the other kinds of the specification's
  taxonomy. \<open>UndefinedBehaviour\<close> stands for an access that C++ does not check (an index
  past the end of a vector, a read past the end of the caller's array, a call through a
  pointer to no object): nothing is thrown and no result is defined.
\<close>

datatype error =
    Throw string
  | UnknownTopology
  | OutOfRange
  | PreconditionFailure
  | UndefinedBehaviour

text \<open>The five classes with a static \<open>classInstances\<close> map, and the dynamic class of a rule.\<close>

datatype cached_class = Barq | Quadq | Triq | Hexq | Tetraq

datatype rule_class = Arbq | Cached cached_class

text \<open>
  An \<open>intgRule\<close> object: its dynamic class and the protected members \<open>q\<close>, \<open>n\<close>, \<open>pdim\<close>,
  \<open>locs\<close>, \<open>wgts\<close>. A cell of an array is \<open>None\<close> until something is written to it.
\<close>

record 'd intgRule =
  cls :: rule_class
  q :: UInt
  n :: UInt
  pdim :: UInt
  locs :: "'d option list"
  wgts :: "'d option list"

text \<open>
  Modelled from the spec: the topology descriptor \<open>MeshObjTopo\<close> is only
  forward-declared in the header. It exposes the parametric dimension and, for every
  side in the canonical side numbering, the name of the side's shape; the side count is
  the length of that list.
\<close>

record MeshObjTopo =
  topo_pdim :: UInt
  side_shapes :: "string list"

record sideIntgFactory =
  side_rules :: "addr list"
  topo :: MeshObjTopo
  base :: addr

text \<open>
  What the header takes from elsewhere: the lookup of a topology by name, the
  dispatcher's table from topology names to the five classes, and, for each class and
  order, the point count and the entries of the coordinate and weight arrays that the
  class's constructor computes.
\<close>

record 'd env =
  GetTopo :: "string \<Rightarrow> MeshObjTopo option"
  topo_class :: "string \<Rightarrow> cached_class option"
  points :: "cached_class \<Rightarrow> UInt \<Rightarrow> UInt \<times> (nat \<Rightarrow> 'd) \<times> (nat \<Rightarrow> 'd)"

text \<open>
  The process state: the rule objects, the five static maps \<open>barq::classInstances\<close>,
  ..., \<open>tetraq::classInstances\<close> (one map per class), the factory objects, the
  \<open>InstanceMap\<close> keyed by topology name and base rule pointer, and the next address
  that \<open>new\<close> hands out.
\<close>

record 'd state =
  heap :: "addr \<rightharpoonup> 'd intgRule"
  classInstances :: "cached_class \<Rightarrow> UInt \<rightharpoonup> addr"
  factories :: "addr \<rightharpoonup> sideIntgFactory"
  fmap :: "string \<times> addr \<rightharpoonup> addr"
  next_addr :: addr

definition init_state :: "'d state" where
  "init_state = \<lparr>heap = Map.empty, classInstances = (\<lambda>c. Map.empty),
     factories = Map.empty, fmap = Map.empty, next_addr = 0\<rparr>"

subsection \<open>The accessors of \<open>intgRule\<close>\<close>

definition npoints :: "'d intgRule \<Rightarrow> UInt" where
  "npoints r = n r"

definition order :: "'d intgRule \<Rightarrow> UInt" where
  "order r = q r"

definition parametric_dim :: "'d intgRule \<Rightarrow> UInt" where
  "parametric_dim r = pdim r"

definition locations :: "'d intgRule \<Rightarrow> 'd option list" where
  "locations r = locs r"

definition weights :: "'d intgRule \<Rightarrow> 'd option list" where
  "weights r = wgts r"

subsection \<open>Constructors\<close>

text \<open>
  Modelled from the spec: the body of \<open>intgRule::intgRule(_q, _n, _pdim)\<close> is not in the
  header. It stores the three numbers and allocates the coordinate array with point
  count times dimension cells and the weight array with point count cells. The product
  is a product of \<open>UInt\<close>s, as \<open>nq*pdim\<close> in \<open>arbq\<close>'s constructor is.
\<close>

definition intgRule_ctor :: "rule_class \<Rightarrow> UInt \<Rightarrow> UInt \<Rightarrow> UInt \<Rightarrow> 'd intgRule" where
  "intgRule_ctor c q0 n0 pdim0 =
     \<lparr>cls = c, q = q0, n = n0, pdim = pdim0,
      locs = replicate (unat (n0 * pdim0)) None,
      wgts = replicate (unat n0) None\<rparr>"

text \<open>
  \<open>std::copy(first, first + cnt, dst)\<close>: the first \<open>cnt\<close> cells of \<open>dst\<close> are overwritten.
  Reading or writing past the end of either array is not checked.
\<close>

definition std_copy :: "'d list \<Rightarrow> nat \<Rightarrow> 'd option list \<Rightarrow> error + 'd option list" where
  "std_copy src cnt dst =
     (if cnt \<le> length src \<and> cnt \<le> length dst
      then Inr (map Some (take cnt src) @ drop cnt dst)
      else Inl UndefinedBehaviour)"

text \<open>
  \<open>arbq(_pdim, nq, pcoord, _wgts)\<close>: the base constructor with order and point count
  both \<open>nq\<close>, then the copy of \<open>nq*pdim\<close> coordinates, then the copy of \<open>nq\<close> weights
  when \<open>_wgts\<close> is not null (\<open>None\<close> is the null pointer).
\<close>

definition arbq_ctor :: "UInt \<Rightarrow> UInt \<Rightarrow> 'd list \<Rightarrow> 'd list option \<Rightarrow> error + 'd intgRule" where
  "arbq_ctor pdim0 nq pcoord wgts0 =
     (let r = intgRule_ctor Arbq nq nq pdim0 in
      case std_copy pcoord (unat (nq * pdim r)) (locs r) of
        Inl e \<Rightarrow> Inl e
      | Inr l \<Rightarrow>
          (case wgts0 of
             None \<Rightarrow> Inr (r\<lparr>locs := l\<rparr>)
           | Some w \<Rightarrow>
               (case std_copy w (unat nq) (wgts r) of
                  Inl e \<Rightarrow> Inl e
                | Inr ws \<Rightarrow> Inr (r\<lparr>locs := l, wgts := ws\<rparr>))))"

text \<open>
  Modelled from the spec: the parametric dimension that each of the five classes passes
  to the base constructor is not in the header. The line rule is 1-D, the quadrilateral
  and triangle rules are 2-D, the hexahedron and tetrahedron rules are 3-D.
\<close>

fun class_dim :: "cached_class \<Rightarrow> UInt" where
  "class_dim Barq = 1"
| "class_dim Quadq = 2"
| "class_dim Triq = 2"
| "class_dim Hexq = 3"
| "class_dim Tetraq = 3"

text \<open>
  Modelled from the spec: the private constructors \<open>barq(ord)\<close>, \<open>quadq(ord)\<close>, \<open>triq(q)\<close>,
  \<open>hexq(q)\<close>, \<open>tetraq(q)\<close> are not in the header. Each builds the rule of the requested
  order: the base constructor with that order, the class's point count and dimension,
  then every cell of both arrays filled with the class's points.
\<close>

definition cached_ctor :: "'d env \<Rightarrow> cached_class \<Rightarrow> UInt \<Rightarrow> 'd intgRule" where
  "cached_ctor env c ord =
     (case points env c ord of (npts, locf, wgtf) \<Rightarrow>
        let r = intgRule_ctor (Cached c) ord npts (class_dim c) in
        r\<lparr>locs := map (\<lambda>i. Some (locf i)) [0..<length (locs r)],
          wgts := map (\<lambda>i. Some (wgtf i)) [0..<length (wgts r)]\<rparr>)"

subsection \<open>The rule caches\<close>

text \<open>
  Modelled from the spec: the bodies of \<open>barq::instance(q)\<close>, ..., \<open>tetraq::instance(q)\<close>
  are not in the header. If the class's map has an entry for the order, that entry is
  returned; otherwise the rule is constructed, inserted and returned.
\<close>

definition cls_instance :: "'d env \<Rightarrow> cached_class \<Rightarrow> UInt \<Rightarrow> 'd state \<Rightarrow> addr \<times> 'd state" where
  "cls_instance env c ord s =
     (case classInstances s c ord of
        Some a \<Rightarrow> (a, s)
      | None \<Rightarrow>
          (let a = next_addr s in
           (a, s\<lparr>heap := (heap s)(a \<mapsto> cached_ctor env c ord),
                 classInstances := (classInstances s)(c := (classInstances s c)(ord \<mapsto> a)),
                 next_addr := Suc a\<rparr>)))"

abbreviation barq_instance :: "'d env \<Rightarrow> UInt \<Rightarrow> 'd state \<Rightarrow> addr \<times> 'd state" where
  "barq_instance env \<equiv> cls_instance env Barq"

abbreviation quadq_instance :: "'d env \<Rightarrow> UInt \<Rightarrow> 'd state \<Rightarrow> addr \<times> 'd state" where
  "quadq_instance env \<equiv> cls_instance env Quadq"

abbreviation triq_instance :: "'d env \<Rightarrow> UInt \<Rightarrow> 'd state \<Rightarrow> addr \<times> 'd state" where
  "triq_instance env \<equiv> cls_instance env Triq"

abbreviation hexq_instance :: "'d env \<Rightarrow> UInt \<Rightarrow> 'd state \<Rightarrow> addr \<times> 'd state" where
  "hexq_instance env \<equiv> cls_instance env Hexq"

abbreviation tetraq_instance :: "'d env \<Rightarrow> UInt \<Rightarrow> 'd state \<Rightarrow> addr \<times> 'd state" where
  "tetraq_instance env \<equiv> cls_instance env Tetraq"

text \<open>A call that cannot fail, as a result of the type the virtual methods return.\<close>

definition returns :: "addr \<times> 'd state \<Rightarrow> (error + addr) \<times> 'd state" where
  "returns x = (Inr (fst x), snd x)"

subsection \<open>The virtual methods\<close>

text \<open>
  \<open>side_rule()\<close> of each class; \<open>this\<close> is the object \<open>r\<close>, whose member \<open>q\<close> the
  overrides of \<open>quadq\<close>, \<open>triq\<close>, \<open>hexq\<close> and \<open>tetraq\<close> read.
\<close>

definition side_rule :: "'d env \<Rightarrow> 'd intgRule \<Rightarrow> 'd state \<Rightarrow> (error + addr) \<times> 'd state" where
  "side_rule env r s =
     (case cls r of
        Arbq \<Rightarrow> (Inl (Throw ''No side rule for arbq''), s)
      | Cached Barq \<Rightarrow> (Inl (Throw ''No side rule for bar''), s)
      | Cached Quadq \<Rightarrow> returns (barq_instance env (q r) s)
      | Cached Triq \<Rightarrow> returns (barq_instance env (q r) s)
      | Cached Hexq \<Rightarrow> returns (quadq_instance env (q r) s)
      | Cached Tetraq \<Rightarrow> returns (triq_instance env (q r) s))"

text \<open>\<open>ChangeOrder(q)\<close> of each class; the parameter hides the member of the same name.\<close>

definition ChangeOrder :: "'d env \<Rightarrow> 'd intgRule \<Rightarrow> UInt \<Rightarrow> 'd state \<Rightarrow> (error + addr) \<times> 'd state" where
  "ChangeOrder env r ord s =
     (case cls r of
        Arbq \<Rightarrow> (Inl (Throw ''Arbq doesnt swap order''), s)
      | Cached Barq \<Rightarrow> returns (barq_instance env ord s)
      | Cached Quadq \<Rightarrow> returns (quadq_instance env ord s)
      | Cached Triq \<Rightarrow> returns (triq_instance env ord s)
      | Cached Hexq \<Rightarrow> returns (hexq_instance env ord s)
      | Cached Tetraq \<Rightarrow> returns (tetraq_instance env ord s))"

text \<open>A virtual call through a pointer: \<open>p->side_rule()\<close>, \<open>p->ChangeOrder(ord)\<close>.\<close>

definition ptr_side_rule :: "'d env \<Rightarrow> addr \<Rightarrow> 'd state \<Rightarrow> (error + addr) \<times> 'd state" where
  "ptr_side_rule env p s =
     (case heap s p of
        None \<Rightarrow> (Inl UndefinedBehaviour, s)
      | Some r \<Rightarrow> side_rule env r s)"

definition ptr_ChangeOrder :: "'d env \<Rightarrow> addr \<Rightarrow> UInt \<Rightarrow> 'd state \<Rightarrow> (error + addr) \<times> 'd state" where
  "ptr_ChangeOrder env p ord s =
     (case heap s p of
        None \<Rightarrow> (Inl UndefinedBehaviour, s)
      | Some r \<Rightarrow> ChangeOrder env r ord s)"

subsection \<open>The dispatcher\<close>

text \<open>
  Modelled from the spec: the body of \<open>Topo2Intg::operator()(q, toponame)\<close> is not in the
  header. It returns the cached instance, for the requested order, of the class that
  matches the topology name; a name that matches no class is the unknown-topology
  failure.
\<close>

definition Topo2Intg :: "'d env \<Rightarrow> UInt \<Rightarrow> string \<Rightarrow> 'd state \<Rightarrow> (error + addr) \<times> 'd state" where
  "Topo2Intg env ord toponame s =
     (case topo_class env toponame of
        None \<Rightarrow> (Inl UnknownTopology, s)
      | Some c \<Rightarrow> returns (cls_instance env c ord s))"

subsection \<open>The side rule factory\<close>

text \<open>\<open>GetSideRule(side_num)\<close> is \<open>side_rules[side_num]\<close>: \<open>operator[]\<close> checks no bound.\<close>

definition GetSideRule :: "sideIntgFactory \<Rightarrow> UInt \<Rightarrow> error + addr" where
  "GetSideRule f side_num =
     (if unat side_num < length (side_rules f)
      then Inr (side_rules f ! unat side_num)
      else Inl UndefinedBehaviour)"

text \<open>
  Modelled from the spec: the bodies of the constructor
  \<open>sideIntgFactory(topo, irule)\<close> and of \<open>sideIntgFactory::instance(toponame, base_rule)\<close>
  are not in the header. The constructor asks, for every side of the topology in turn,
  the rule cache of the side's shape for the order carried by the base rule. \<open>instance\<close>
  returns the entry of the map for the pair of the name and the base rule pointer when
  there is one, and otherwise builds the factory, inserts it under that pair and
  returns it.
\<close>

fun mk_side_rules :: "'d env \<Rightarrow> UInt \<Rightarrow> string list \<Rightarrow> 'd state \<Rightarrow> (error + addr list) \<times> 'd state" where
  "mk_side_rules env ord [] s = (Inr [], s)"
| "mk_side_rules env ord (nm # nms) s =
     (case Topo2Intg env ord nm s of
        (Inl e, s1) \<Rightarrow> (Inl e, s1)
      | (Inr a, s1) \<Rightarrow>
          (case mk_side_rules env ord nms s1 of
             (Inl e, s2) \<Rightarrow> (Inl e, s2)
           | (Inr rs, s2) \<Rightarrow> (Inr (a # rs), s2)))"

definition sideIntgFactory_instance ::
  "'d env \<Rightarrow> string \<Rightarrow> addr \<Rightarrow> 'd state \<Rightarrow> (error + addr) \<times> 'd state" where
  "sideIntgFactory_instance env toponame base_rule s =
     (case fmap s (toponame, base_rule) of
        Some f \<Rightarrow> (Inr f, s)
      | None \<Rightarrow>
          (case GetTopo env toponame of
             None \<Rightarrow> (Inl UnknownTopology, s)
           | Some tp \<Rightarrow>
               (case heap s base_rule of
                  None \<Rightarrow> (Inl UndefinedBehaviour, s)
                | Some b \<Rightarrow>
                    (case mk_side_rules env (order b) (side_shapes tp) s of
                       (Inl e, s1) \<Rightarrow> (Inl e, s1)
                     | (Inr rs, s1) \<Rightarrow>
                         (let f = next_addr s1 in
                          (Inr f,
                           s1\<lparr>factories := (factories s1)
                                  (f \<mapsto> \<lparr>side_rules = rs, topo = tp, base = base_rule\<rparr>),
                              fmap := (fmap s1)((toponame, base_rule) \<mapsto> f),
                              next_addr := Suc f\<rparr>))))))"

definition ptr_GetSideRule :: "addr \<Rightarrow> UInt \<Rightarrow> 'd state \<Rightarrow> error + addr" where
  "ptr_GetSideRule f side_num s =
     (case factories s f of
        None \<Rightarrow> Inl UndefinedBehaviour
      | Some fac \<Rightarrow> GetSideRule fac side_num)"

subsection \<open>The operations of a process\<close>

text \<open>
  Everything a caller can do with the header: construct an \<open>arbq\<close>, ask a cache for an
  instance, read a rule through its accessors, call the two virtual methods, dispatch
  on a topology name, ask for a side rule factory and index it.
\<close>

datatype 'd op =
    NewArbq UInt UInt "'d list" "'d list option"
  | Instance cached_class UInt
  | Npoints addr
  | Order addr
  | ParametricDim addr
  | Locations addr
  | Weights addr
  | SideRule addr
  | ChangeOrderTo addr UInt
  | Dispatch UInt string
  | FactoryInstance string addr
  | SideRuleAt addr UInt

datatype 'd val = Ptr addr | Num UInt | Arr "'d option list"

definition new_arbq ::
  "UInt \<Rightarrow> UInt \<Rightarrow> 'd list \<Rightarrow> 'd list option \<Rightarrow> 'd state \<Rightarrow> (error + addr) \<times> 'd state" where
  "new_arbq pdim0 nq pcoord wgts0 s =
     (case arbq_ctor pdim0 nq pcoord wgts0 of
        Inl e \<Rightarrow> (Inl e, s)
      | Inr r \<Rightarrow>
          (let a = next_addr s in
           (Inr a, s\<lparr>heap := (heap s)(a \<mapsto> r), next_addr := Suc a\<rparr>)))"

definition read_rule :: "('d intgRule \<Rightarrow> 'd val) \<Rightarrow> addr \<Rightarrow> 'd state \<Rightarrow> (error + 'd val) \<times> 'd state" where
  "read_rule f p s =
     (case heap s p of
        None \<Rightarrow> (Inl UndefinedBehaviour, s)
      | Some r \<Rightarrow> (Inr (f r), s))"

definition as_ptr :: "(error + addr) \<times> 'd state \<Rightarrow> (error + 'd val) \<times> 'd state" where
  "as_ptr x = (map_sum id Ptr (fst x), snd x)"

fun exec :: "'d env \<Rightarrow> 'd op \<Rightarrow> 'd state \<Rightarrow> (error + 'd val) \<times> 'd state" where
  "exec env (NewArbq pdim0 nq pcoord wgts0) s = as_ptr (new_arbq pdim0 nq pcoord wgts0 s)"
| "exec env (Instance c ord) s = as_ptr (returns (cls_instance env c ord s))"
| "exec env (Npoints p) s = read_rule (\<lambda>r. Num (npoints r)) p s"
| "exec env (Order p) s = read_rule (\<lambda>r. Num (order r)) p s"
| "exec env (ParametricDim p) s = read_rule (\<lambda>r. Num (parametric_dim r)) p s"
| "exec env (Locations p) s = read_rule (\<lambda>r. Arr (locations r)) p s"
| "exec env (Weights p) s = read_rule (\<lambda>r. Arr (weights r)) p s"
| "exec env (SideRule p) s = as_ptr (ptr_side_rule env p s)"
| "exec env (ChangeOrderTo p ord) s = as_ptr (ptr_ChangeOrder env p ord s)"
| "exec env (Dispatch ord toponame) s = as_ptr (Topo2Intg env ord toponame s)"
| "exec env (FactoryInstance toponame p) s = as_ptr (sideIntgFactory_instance env toponame p s)"
| "exec env (SideRuleAt f side_num) s = as_ptr (ptr_GetSideRule f side_num s, s)"

text \<open>
  A run of a process: the operations one after the other. An exception is caught and
  the run goes on; after an unchecked access nothing more is known, and the run ends.
\<close>

fun run :: "'d env \<Rightarrow> 'd op list \<Rightarrow> 'd state \<Rightarrow> 'd state" where
  "run env [] s = s"
| "run env (x # xs) s =
     (case exec env x s of
        (Inl UndefinedBehaviour, s') \<Rightarrow> s'
      | (_, s') \<Rightarrow> run env xs s')"

subsection \<open>The point generator\<close>

text \<open>
  Modelled from the spec: the body of \<open>gauss_legendre(n, locs, wghts)\<close> is not in the
  header. Given \<open>n \<ge> 1\<close> it produces \<open>n\<close> abscissae and weights of the quadrature that is
  exact for the polynomials of degree at most \<open>2n - 1\<close> on the interval from -1 to 1; a
  call with \<open>n \<le> 0\<close>, which for the unsigned \<open>n\<close> is \<open>n = 0\<close>, is a precondition
  failure. Abscissae and weights are real numbers here. Exactness is stated for the
  monomials \<open>x ^ k\<close> with \<open>k < 2n\<close>, which span those polynomials.
\<close>

text \<open>The integral of \<open>x ^ k\<close> over the interval from -1 to 1.\<close>

definition monomial_integral :: "nat \<Rightarrow> real" where
  "monomial_integral k = (1 - (- 1) ^ (k + 1)) / (real k + 1)"

text \<open>The quadrature sum of \<open>x ^ k\<close> for the abscissae \<open>xs\<close> and the weights \<open>ws\<close>.\<close>

definition quadrature_sum :: "real list \<Rightarrow> real list \<Rightarrow> nat \<Rightarrow> real" where
  "quadrature_sum xs ws k = sum_list (map2 (\<lambda>x w. w * x ^ k) xs ws)"

definition gauss_legendre_exact :: "nat \<Rightarrow> real list \<Rightarrow> real list \<Rightarrow> bool" where
  "gauss_legendre_exact m xs ws \<longleftrightarrow>
     length xs = m \<and> length ws = m \<and>
     list_all (\<lambda>k. quadrature_sum xs ws k = monomial_integral k) [0..<2 * m]"

text \<open>
  The outcomes that the contract allows for a call with \<open>n0\<close> points: the failure, or
  the abscissae and weights computed.
\<close>

definition gauss_legendre :: "UInt \<Rightarrow> (error + real list \<times> real list) \<Rightarrow> bool" where
  "gauss_legendre n0 out \<longleftrightarrow>
     (case out of
        Inl e \<Rightarrow> n0 = 0 \<and> e = PreconditionFailure
      | Inr (ls, ws) \<Rightarrow> 0 < n0 \<and> gauss_legendre_exact (unat n0) ls ws)"

text \<open>
  What the call leaves in the caller's arrays: the abscissae in \<open>locs\<close>, and the weights
  in \<open>wghts\<close> when that pointer is not null.
\<close>

definition gauss_legendre_writes ::
  "bool \<Rightarrow> error + real list \<times> real list \<Rightarrow> error + real list \<times> real list option" where
  "gauss_legendre_writes wghts_given out =
     (case out of
        Inl e \<Rightarrow> Inl e
      | Inr (ls, ws) \<Rightarrow> Inr (ls, if wghts_given then Some ws else None))"

section \<open>Invariants of the process state\<close>

text \<open>
  \<open>is_instance s c ord a\<close>: the map of class \<open>c\<close> holds \<open>a\<close> for the order \<open>ord\<close>, and the
  object at \<open>a\<close> is a rule of class \<open>c\<close> and order \<open>ord\<close>.
\<close>

definition is_instance :: "'d state \<Rightarrow> cached_class \<Rightarrow> UInt \<Rightarrow> addr \<Rightarrow> bool" where
  "is_instance s c ord a \<longleftrightarrow>
     classInstances s c ord = Some a \<and>
     (case heap s a of None \<Rightarrow> False | Some r \<Rightarrow> cls r = Cached c \<and> order r = ord)"

text \<open>A call returns the cached instance of class \<open>c\<close> for the order \<open>ord\<close>.\<close>

definition returns_instance :: "(error + addr) \<times> 'd state \<Rightarrow> cached_class \<Rightarrow> UInt \<Rightarrow> bool" where
  "returns_instance x c ord \<longleftrightarrow>
     (case fst x of Inl e \<Rightarrow> False | Inr a \<Rightarrow> is_instance (snd x) c ord a)"

text \<open>Every entry of a cache is a rule of the cache's class and of the entry's order.\<close>

definition caches_ok :: "'d state \<Rightarrow> bool" where
  "caches_ok s \<longleftrightarrow> (\<forall>c ord a. classInstances s c ord = Some a \<longrightarrow> is_instance s c ord a)"

text \<open>No object lives at an address that \<open>new\<close> has not handed out yet.\<close>

definition alloc_ok :: "'d state \<Rightarrow> bool" where
  "alloc_ok s \<longleftrightarrow> (\<forall>a. next_addr s \<le> a \<longrightarrow> heap s a = None \<and> factories s a = None)"

text \<open>The arrays of a rule have point count times dimension, and point count, cells.\<close>

definition sized :: "'d intgRule \<Rightarrow> bool" where
  "sized r \<longleftrightarrow> length (locs r) = unat (n r * pdim r) \<and> length (wgts r) = unat (n r)"

definition sizes_ok :: "'d state \<Rightarrow> bool" where
  "sizes_ok s \<longleftrightarrow> (\<forall>a r. heap s a = Some r \<longrightarrow> sized r)"

text \<open>
  The side rules of a factory are, side by side, the cached instances of the sides'
  classes for the order of the base rule.
\<close>

definition side_rules_for :: "'d env \<Rightarrow> 'd state \<Rightarrow> UInt \<Rightarrow> string list \<Rightarrow> addr list \<Rightarrow> bool" where
  "side_rules_for env s ord sns rs \<longleftrightarrow>
     list_all2 (\<lambda>sn a. case topo_class env sn of
                          None \<Rightarrow> False
                        | Some c \<Rightarrow> classInstances s c ord = Some a) sns rs"

definition factory_ok :: "'d env \<Rightarrow> 'd state \<Rightarrow> string \<Rightarrow> addr \<Rightarrow> addr \<Rightarrow> bool" where
  "factory_ok env s nm b f \<longleftrightarrow>
     (case factories s f of
        None \<Rightarrow> False
      | Some fac \<Rightarrow>
          (case heap s b of
             None \<Rightarrow> False
           | Some r \<Rightarrow>
               (case GetTopo env nm of
                  None \<Rightarrow> False
                | Some tp \<Rightarrow>
                    base fac = b \<and> topo fac = tp \<and>
                    side_rules_for env s (order r) (side_shapes tp) (side_rules fac))))"

text \<open>Every entry of the factory map is such a factory, and no factory has two keys.\<close>

definition fmap_ok :: "'d env \<Rightarrow> 'd state \<Rightarrow> bool" where
  "fmap_ok env s \<longleftrightarrow>
     (\<forall>nm b f. fmap s (nm, b) = Some f \<longrightarrow> factory_ok env s nm b f) \<and>
     (\<forall>k k' f. fmap s k = Some f \<longrightarrow> fmap s k' = Some f \<longrightarrow> k = k')"

definition inv :: "'d env \<Rightarrow> 'd state \<Rightarrow> bool" where
  "inv env s \<longleftrightarrow> caches_ok s \<and> alloc_ok s \<and> sizes_ok s \<and> fmap_ok env s"

text \<open>A later state keeps every object and every entry of an earlier one.\<close>

definition grows :: "'d state \<Rightarrow> 'd state \<Rightarrow> bool" where
  "grows s s' \<longleftrightarrow>
     heap s \<subseteq>\<^sub>m heap s' \<and> (\<forall>c. classInstances s c \<subseteq>\<^sub>m classInstances s' c) \<and>
     factories s \<subseteq>\<^sub>m factories s' \<and> fmap s \<subseteq>\<^sub>m fmap s' \<and> next_addr s \<le> next_addr s'"

subsection \<open>An example process\<close>

text \<open>
  An environment with two topologies and five names for the dispatcher, and a state
  in which the caches hold a line, a quadrilateral, a hexahedron and a tetrahedron rule
  of order 2, at the addresses 0, 1, 2 and 3.
\<close>

definition ex_env :: "int env" where
  "ex_env =
     \<lparr>GetTopo = (\<lambda>nm.
        if nm = ''QUAD'' then Some \<lparr>topo_pdim = 2, side_shapes = [''BAR'', ''BAR'', ''BAR'', ''BAR'']\<rparr>
        else if nm = ''TRI'' then Some \<lparr>topo_pdim = 2, side_shapes = [''BAR'', ''BAR'', ''BAR'']\<rparr>
        else None),
      topo_class = (\<lambda>nm.
        if nm = ''BAR'' then Some Barq
        else if nm = ''QUAD'' then Some Quadq
        else if nm = ''TRI'' then Some Triq
        else if nm = ''HEX'' then Some Hexq
        else if nm = ''TETRA'' then Some Tetraq
        else None),
      points = (\<lambda>c ord. (ord, (\<lambda>i. 0), (\<lambda>i. 1)))\<rparr>"

definition ex_state :: "int state" where
  "ex_state = run ex_env [Instance Barq 2, Instance Quadq 2, Instance Hexq 2, Instance Tetraq 2] init_state"

text \<open>The state after the side rule factory of ''QUAD'' for the base rule at 0 is built.\<close>

definition ex_fstate :: "int state" where
  "ex_fstate = snd (sideIntgFactory_instance ex_env ''QUAD'' 0 ex_state)"



section \<open>The invariants hold throughout a run\<close>

lemma grows_refl: "grows s s"
  by (simp add: grows_def)

lemma grows_trans: "grows s s1 \<Longrightarrow> grows s1 s2 \<Longrightarrow> grows s s2"
  unfolding grows_def by (meson map_le_trans le_trans)

lemma sized_cached_ctor: "sized (cached_ctor env c ord)"
  by (simp add: sized_def cached_ctor_def intgRule_ctor_def split: prod.splits)

lemma cached_ctor_cls: "cls (cached_ctor env c ord) = Cached c"
  by (simp add: cached_ctor_def intgRule_ctor_def split: prod.splits)

lemma cached_ctor_q: "q (cached_ctor env c ord) = ord"
  by (simp add: cached_ctor_def intgRule_ctor_def split: prod.splits)

lemma std_copy_length: "std_copy src cnt dst = Inr l \<Longrightarrow> length l = length dst"
  by (auto simp: std_copy_def split: if_splits)

lemma sized_arbq_ctor: "arbq_ctor pdim0 nq pcoord wgts0 = Inr r \<Longrightarrow> sized r"
  by (auto simp: arbq_ctor_def Let_def sized_def intgRule_ctor_def
      split: sum.splits option.splits dest!: std_copy_length)

lemma cls_instance_hit:
  "classInstances s c ord = Some a \<Longrightarrow> cls_instance env c ord s = (a, s)"
  by (simp add: cls_instance_def)

lemma cls_instance_cached:
  "cls_instance env c ord s = (a, s') \<Longrightarrow> classInstances s' c ord = Some a"
  by (auto simp: cls_instance_def Let_def split: option.splits)

lemma cls_instance_grows:
  "alloc_ok s \<Longrightarrow> cls_instance env c ord s = (a, s') \<Longrightarrow> grows s s'"
  by (auto simp: cls_instance_def Let_def grows_def alloc_ok_def map_le_def split: option.splits)

lemma cls_instance_cache_mono:
  "cls_instance env c ord s = (a, s') \<Longrightarrow> classInstances s c' ord' = Some b \<Longrightarrow>
   classInstances s' c' ord' = Some b"
  by (auto simp: cls_instance_def Let_def split: option.splits)

lemma cls_instance_alloc_ok:
  "alloc_ok s \<Longrightarrow> cls_instance env c ord s = (a, s') \<Longrightarrow> alloc_ok s'"
  by (auto simp: cls_instance_def Let_def alloc_ok_def split: option.splits)

lemma cls_instance_sizes_ok:
  "sizes_ok s \<Longrightarrow> cls_instance env c ord s = (a, s') \<Longrightarrow> sizes_ok s'"
  by (auto simp: cls_instance_def Let_def sizes_ok_def sized_cached_ctor split: option.splits if_splits)

lemma is_instance_grows: "grows s s' \<Longrightarrow> is_instance s c ord a \<Longrightarrow> is_instance s' c ord a"
  unfolding grows_def is_instance_def map_le_def
  by (auto split: option.splits simp: domIff dest!: bspec)

lemma cls_instance_is_instance:
  assumes "caches_ok s" "alloc_ok s" "cls_instance env c ord s = (a, s')"
  shows "is_instance s' c ord a"
proof (cases "classInstances s c ord")
  case None
  with assms(3) show ?thesis
    by (auto simp: cls_instance_def Let_def is_instance_def order_def cached_ctor_cls cached_ctor_q)
next
  case (Some b)
  with assms show ?thesis
    by (auto simp: cls_instance_def caches_ok_def)
qed

lemma cls_instance_caches_ok:
  assumes "caches_ok s" "alloc_ok s" "cls_instance env c ord s = (a, s')"
  shows "caches_ok s'"
  unfolding caches_ok_def
proof (intro allI impI)
  fix c' ord' b
  assume b: "classInstances s' c' ord' = Some b"
  have g: "grows s s'" using assms(2,3) by (rule cls_instance_grows)
  show "is_instance s' c' ord' b"
  proof (cases "classInstances s c' ord' = Some b")
    case True
    then have "is_instance s c' ord' b" using assms(1) by (simp add: caches_ok_def)
    with g show ?thesis by (rule is_instance_grows)
  next
    case False
    with b assms(3) have "c' = c \<and> ord' = ord \<and> b = a"
      by (auto simp: cls_instance_def Let_def split: option.splits if_splits)
    then show ?thesis using cls_instance_is_instance[OF assms] by simp
  qed
qed

lemma inv_init: "inv env init_state"
  by (simp add: inv_def caches_ok_def alloc_ok_def sizes_ok_def fmap_ok_def init_state_def)

lemma map_leD: "m \<subseteq>\<^sub>m m' \<Longrightarrow> m k = Some v \<Longrightarrow> m' k = Some v"
  by (auto simp: map_le_def dest!: bspec)

lemma grows_heap: "grows s s' \<Longrightarrow> heap s a = Some r \<Longrightarrow> heap s' a = Some r"
  unfolding grows_def by (blast intro: map_leD)

lemma grows_cache: "grows s s' \<Longrightarrow> classInstances s c ord = Some a \<Longrightarrow> classInstances s' c ord = Some a"
  unfolding grows_def by (blast intro: map_leD)

lemma grows_factories: "grows s s' \<Longrightarrow> factories s f = Some fac \<Longrightarrow> factories s' f = Some fac"
  unfolding grows_def by (blast intro: map_leD)


lemma side_rules_for_grows:
  "grows s s' \<Longrightarrow> side_rules_for env s ord sns rs \<Longrightarrow> side_rules_for env s' ord sns rs"
  unfolding side_rules_for_def
  by (erule list_all2_mono) (auto split: option.splits dest: grows_cache)

lemma factory_ok_grows:
  "grows s s' \<Longrightarrow> factory_ok env s nm b f \<Longrightarrow> factory_ok env s' nm b f"
proof -
  assume g: "grows s s'" and ok: "factory_ok env s nm b f"
  from ok obtain fac r tp where
    h: "factories s f = Some fac" "heap s b = Some r" "GetTopo env nm = Some tp"
      "base fac = b" "topo fac = tp"
      "side_rules_for env s (order r) (side_shapes tp) (side_rules fac)"
    by (auto simp: factory_ok_def split: option.splits)
  from g h(1) have "factories s' f = Some fac" by (rule grows_factories)
  moreover from g h(2) have "heap s' b = Some r" by (rule grows_heap)
  moreover from g h(6) have "side_rules_for env s' (order r) (side_shapes tp) (side_rules fac)"
    by (rule side_rules_for_grows)
  ultimately show ?thesis using h(3,4,5) by (simp add: factory_ok_def)
qed

lemma fmap_ok_grows:
  "fmap_ok env s \<Longrightarrow> grows s s' \<Longrightarrow> fmap s' = fmap s \<Longrightarrow> fmap_ok env s'"
  unfolding fmap_ok_def by (auto intro: factory_ok_grows)

lemma inv_cls_instance:
  assumes "inv env s" "cls_instance env c ord s = (a, s')"
  shows "inv env s'" "grows s s'" "fmap s' = fmap s" "factories s' = factories s"
proof -
  from assms(1) have i: "caches_ok s" "alloc_ok s" "sizes_ok s" "fmap_ok env s"
    by (simp_all add: inv_def)
  show g: "grows s s'" using i(2) assms(2) by (rule cls_instance_grows)
  show f: "fmap s' = fmap s" using assms(2)
    by (auto simp: cls_instance_def Let_def split: option.splits)
  show "factories s' = factories s" using assms(2)
    by (auto simp: cls_instance_def Let_def split: option.splits)
  show "inv env s'"
    unfolding inv_def
    using cls_instance_caches_ok[OF i(1,2) assms(2)] cls_instance_alloc_ok[OF i(2) assms(2)]
      cls_instance_sizes_ok[OF i(3) assms(2)] fmap_ok_grows[OF i(4) g f]
    by simp
qed

lemma Topo2Intg_cases:
  assumes "Topo2Intg env ord nm s = (res, s')"
  obtains (unknown) "topo_class env nm = None" "res = Inl UnknownTopology" "s' = s"
  | (known) c a where "topo_class env nm = Some c" "res = Inr a" "cls_instance env c ord s = (a, s')"
  using assms by (auto simp: Topo2Intg_def returns_def split: option.splits)

lemma inv_Topo2Intg:
  assumes "inv env s" "Topo2Intg env ord nm s = (res, s')"
  shows "inv env s'" "grows s s'" "fmap s' = fmap s" "factories s' = factories s"
proof -
  have "inv env s' \<and> grows s s' \<and> fmap s' = fmap s \<and> factories s' = factories s"
    using assms(2)
  proof (cases rule: Topo2Intg_cases)
    case unknown
    with assms(1) show ?thesis by (simp add: grows_refl)
  next
    case (known c a)
    from inv_cls_instance[OF assms(1) known(3)] show ?thesis by simp
  qed
  then show "inv env s'" "grows s s'" "fmap s' = fmap s" "factories s' = factories s"
    by simp_all
qed

lemma inv_mk_side_rules:
  "inv env s \<Longrightarrow> mk_side_rules env ord sns s = (res, s') \<Longrightarrow>
   inv env s' \<and> grows s s' \<and> fmap s' = fmap s \<and> factories s' = factories s \<and>
   (\<forall>rs. res = Inr rs \<longrightarrow> side_rules_for env s' ord sns rs)"
proof (induction sns arbitrary: s res s')
  case Nil
  then show ?case by (auto simp: grows_refl side_rules_for_def)
next
  case (Cons nm nms)
  obtain r1 s1 where t: "Topo2Intg env ord nm s = (r1, s1)" by (cases "Topo2Intg env ord nm s")
  note i1 = inv_Topo2Intg[OF Cons.prems(1) t]
  show ?case
  proof (cases r1)
    case (Inl e)
    with t Cons.prems(2) have "res = Inl e" "s' = s1" by auto
    with i1 show ?thesis by simp
  next
    case (Inr a)
    obtain r2 s2 where m: "mk_side_rules env ord nms s1 = (r2, s2)"
      by (cases "mk_side_rules env ord nms s1")
    note i2 = Cons.IH[OF i1(1) m]
    from t Inr obtain c where c: "topo_class env nm = Some c" "classInstances s1 c ord = Some a"
      by (cases rule: Topo2Intg_cases) (auto dest: cls_instance_cached)
    from i2 c(2) have a2: "classInstances s2 c ord = Some a" by (auto dest: grows_cache)
    have s': "s' = s2" using Cons.prems(2) t Inr m by (auto split: sum.splits)
    have "\<forall>rs. res = Inr rs \<longrightarrow> side_rules_for env s2 ord (nm # nms) rs"
      using Cons.prems(2) t Inr m i2 c(1) a2
      by (auto split: sum.splits simp: side_rules_for_def)
    moreover have "grows s s2" using i1(2) i2 by (blast intro: grows_trans)
    ultimately show ?thesis using i1 i2 s' by simp
  qed
qed

lemma sideIntgFactory_instance_cases:
  assumes "sideIntgFactory_instance env nm b s = (res, s')"
  obtains (hit) f where "fmap s (nm, b) = Some f" "res = Inr f" "s' = s"
  | (no_topo) "fmap s (nm, b) = None" "GetTopo env nm = None" "res = Inl UnknownTopology" "s' = s"
  | (no_base) "fmap s (nm, b) = None" "heap s b = None" "res = Inl UndefinedBehaviour" "s' = s"
  | (failed) tp r e where "fmap s (nm, b) = None" "GetTopo env nm = Some tp" "heap s b = Some r"
      "mk_side_rules env (order r) (side_shapes tp) s = (Inl e, s')" "res = Inl e"
  | (built) tp r rs s1 where "fmap s (nm, b) = None" "GetTopo env nm = Some tp" "heap s b = Some r"
      "mk_side_rules env (order r) (side_shapes tp) s = (Inr rs, s1)" "res = Inr (next_addr s1)"
      "s' = s1\<lparr>factories := (factories s1)
                 (next_addr s1 \<mapsto> \<lparr>side_rules = rs, topo = tp, base = b\<rparr>),
               fmap := (fmap s1)((nm, b) \<mapsto> next_addr s1),
               next_addr := Suc (next_addr s1)\<rparr>"
proof (cases "fmap s (nm, b)")
  case (Some f)
  with assms show ?thesis by (intro hit[of f]) (simp_all add: sideIntgFactory_instance_def)
next
  case None
  note fm = None
  show ?thesis
  proof (cases "GetTopo env nm")
    case None
    with assms fm show ?thesis by (intro no_topo) (simp_all add: sideIntgFactory_instance_def)
  next
    case (Some tp)
    note tp = Some
    show ?thesis
    proof (cases "heap s b")
      case None
      with assms fm tp show ?thesis
        by (intro no_base) (simp_all add: sideIntgFactory_instance_def)
    next
      case (Some r)
      obtain r1 s1 where m: "mk_side_rules env (order r) (side_shapes tp) s = (r1, s1)"
        by (cases "mk_side_rules env (order r) (side_shapes tp) s")
      show ?thesis
      proof (cases r1)
        case (Inl e)
        with assms fm tp Some m show ?thesis
          by (intro failed[of tp r e]) (simp_all add: sideIntgFactory_instance_def)
      next
        case (Inr rs)
        with assms fm tp Some m show ?thesis
          by (intro built[of tp r rs s1]) (auto simp: sideIntgFactory_instance_def Let_def)
      qed
    qed
  qed
qed

lemma fmap_values_allocated:
  assumes "fmap_ok env s" "alloc_ok s" "fmap s k = Some f"
  shows "f < next_addr s"
proof -
  obtain nm b where k: "k = (nm, b)" by (cases k)
  with assms have "factory_ok env s nm b f" by (simp add: fmap_ok_def)
  then have "factories s f \<noteq> None" by (auto simp: factory_ok_def split: option.splits)
  with assms(2) show ?thesis unfolding alloc_ok_def by (meson not_le)
qed

lemma inv_factory_built:
  assumes i: "inv env s1" and none: "fmap s1 (nm, b) = None" and tp: "GetTopo env nm = Some tp"
    and r: "heap s1 b = Some r"
    and rs: "side_rules_for env s1 (order r) (side_shapes tp) rs"
    and s': "s' = s1\<lparr>factories := (factories s1)
                 (next_addr s1 \<mapsto> \<lparr>side_rules = rs, topo = tp, base = b\<rparr>),
               fmap := (fmap s1)((nm, b) \<mapsto> next_addr s1),
               next_addr := Suc (next_addr s1)\<rparr>"
  shows "inv env s'" "grows s1 s'"
proof -
  from i have i1: "caches_ok s1" "alloc_ok s1" "sizes_ok s1" "fmap_ok env s1"
    by (simp_all add: inv_def)
  show g: "grows s1 s'"
    using i1(2) none by (auto simp: s' grows_def map_le_def alloc_ok_def)
  have c: "caches_ok s'" using i1(1) by (simp add: s' caches_ok_def is_instance_def)
  have a: "alloc_ok s'" using i1(2) by (simp add: s' alloc_ok_def)
  have z: "sizes_ok s'" using i1(3) by (simp add: s' sizes_ok_def)
  have new: "factory_ok env s' nm b (next_addr s1)"
    using tp r side_rules_for_grows[OF g rs] by (simp add: s' factory_ok_def)
  have f1: "\<forall>nm' b' f. fmap s' (nm', b') = Some f \<longrightarrow> factory_ok env s' nm' b' f"
  proof (intro allI impI)
    fix nm' b' f assume f: "fmap s' (nm', b') = Some f"
    show "factory_ok env s' nm' b' f"
    proof (cases "(nm', b') = (nm, b)")
      case True
      with f new show ?thesis by (simp add: s')
    next
      case False
      with f have "fmap s1 (nm', b') = Some f" by (auto simp: s' split: if_splits)
      with i1(4) have "factory_ok env s1 nm' b' f" by (simp add: fmap_ok_def)
      with g show ?thesis by (rule factory_ok_grows)
    qed
  qed
  have f2: "\<forall>k k' f. fmap s' k = Some f \<longrightarrow> fmap s' k' = Some f \<longrightarrow> k = k'"
  proof (intro allI impI)
    fix k k' f assume k: "fmap s' k = Some f" and k': "fmap s' k' = Some f"
    have old: "\<And>x y. fmap s1 x = Some y \<Longrightarrow> y \<noteq> next_addr s1"
      using fmap_values_allocated[OF i1(4) i1(2)] by fastforce
    show "k = k'"
    proof (cases "k = (nm, b)")
      case True
      with k have "f = next_addr s1" by (simp add: s')
      with k' old[of k'] show ?thesis using True by (auto simp: s' split: if_splits)
    next
      case False
      with k have k1: "fmap s1 k = Some f" by (simp add: s')
      with old have "f \<noteq> next_addr s1" by blast
      with k' have "fmap s1 k' = Some f" by (auto simp: s' split: if_splits)
      with k1 i1(4) show ?thesis unfolding fmap_ok_def by blast
    qed
  qed
  from f1 f2 have "fmap_ok env s'" by (simp add: fmap_ok_def)
  with c a z show "inv env s'" by (simp add: inv_def)
qed

lemma inv_sideIntgFactory_instance:
  assumes "inv env s" "sideIntgFactory_instance env nm b s = (res, s')"
  shows "inv env s' \<and> grows s s'"
  using assms(2)
proof (cases rule: sideIntgFactory_instance_cases)
  case (failed tp r e)
  from inv_mk_side_rules[OF assms(1) failed(4)] show ?thesis by simp
next
  case (built tp r rs s1)
  note m = inv_mk_side_rules[OF assms(1) built(4)]
  from m have g: "grows s s1" by simp
  from m built(1) have none: "fmap s1 (nm, b) = None" by simp
  from g built(3) have r1: "heap s1 b = Some r" by (rule grows_heap)
  from m have rs: "side_rules_for env s1 (order r) (side_shapes tp) rs" by simp
  from m have i1: "inv env s1" by simp
  note b = inv_factory_built[OF i1 none built(2) r1 rs built(6)]
  from b(2) g have "grows s s'" by (blast intro: grows_trans)
  with b(1) show ?thesis by simp
qed (use assms(1) in \<open>simp_all add: grows_refl\<close>)

lemma inv_new_arbq:
  assumes "inv env s" "new_arbq pdim0 nq pcoord wgts0 s = (res, s')"
  shows "inv env s' \<and> grows s s'"
proof (cases "arbq_ctor pdim0 nq pcoord wgts0")
  case (Inl e)
  with assms show ?thesis by (simp add: new_arbq_def grows_refl)
next
  case (Inr r)
  with assms(2) have s': "s' = s\<lparr>heap := (heap s)(next_addr s \<mapsto> r), next_addr := Suc (next_addr s)\<rparr>"
    by (simp add: new_arbq_def Let_def)
  from assms(1) have i: "caches_ok s" "alloc_ok s" "sizes_ok s" "fmap_ok env s"
    by (simp_all add: inv_def)
  have g: "grows s s'" using i(2) by (auto simp: s' grows_def map_le_def alloc_ok_def)
  have "caches_ok s'" unfolding caches_ok_def
    using i(1) g by (auto simp: caches_ok_def s' intro: is_instance_grows)
  moreover have "alloc_ok s'" using i(2) by (simp add: s' alloc_ok_def)
  moreover have "sizes_ok s'" using i(3) sized_arbq_ctor[OF Inr] by (simp add: s' sizes_ok_def)
  moreover have "fmap_ok env s'" using i(4) g by (rule fmap_ok_grows) (simp add: s')
  ultimately show ?thesis using g by (simp add: inv_def)
qed

lemma returns_cases:
  assumes "returns (cls_instance env c ord s) = (res, s')"
  obtains a where "res = Inr a" "cls_instance env c ord s = (a, s')"
  using assms by (cases "cls_instance env c ord s") (simp add: returns_def)

lemma inv_returns:
  assumes "inv env s" "returns (cls_instance env c ord s) = (res, s')"
  shows "inv env s' \<and> grows s s'"
  using assms(2) by (rule returns_cases) (simp add: inv_cls_instance[OF assms(1)])

lemma inv_side_rule:
  assumes "inv env s" "side_rule env r s = (res, s')"
  shows "inv env s' \<and> grows s s'"
proof (cases "cls r")
  case Arbq
  with assms show ?thesis by (simp add: side_rule_def grows_refl)
next
  case (Cached c)
  with assms show ?thesis
    by (cases c) (auto simp: side_rule_def grows_refl dest: inv_returns)
qed

lemma inv_ChangeOrder:
  assumes "inv env s" "ChangeOrder env r ord s = (res, s')"
  shows "inv env s' \<and> grows s s'"
proof (cases "cls r")
  case Arbq
  with assms show ?thesis by (simp add: ChangeOrder_def grows_refl)
next
  case (Cached c)
  with assms show ?thesis
    by (cases c) (auto simp: ChangeOrder_def grows_refl dest: inv_returns)
qed

lemma inv_exec:
  assumes "inv env s" "exec env x s = (res, s')"
  shows "inv env s' \<and> grows s s'"
proof (cases x)
  case (NewArbq pdim0 nq pcoord wgts0)
  with assms show ?thesis
    by (cases "new_arbq pdim0 nq pcoord wgts0 s") (auto simp: as_ptr_def dest: inv_new_arbq)
next
  case (Instance c ord)
  with assms show ?thesis
    by (cases "returns (cls_instance env c ord s)") (auto simp: as_ptr_def dest: inv_returns)
next
  case (SideRule p)
  with assms show ?thesis
    by (cases "heap s p"; cases "ptr_side_rule env p s")
      (auto simp: as_ptr_def ptr_side_rule_def grows_refl dest: inv_side_rule)
next
  case (ChangeOrderTo p ord)
  with assms show ?thesis
    by (cases "heap s p"; cases "ptr_ChangeOrder env p ord s")
      (auto simp: as_ptr_def ptr_ChangeOrder_def grows_refl dest: inv_ChangeOrder)
next
  case (Dispatch ord nm)
  with assms show ?thesis
    by (cases "Topo2Intg env ord nm s") (auto simp: as_ptr_def dest: inv_Topo2Intg)
next
  case (FactoryInstance nm p)
  with assms show ?thesis
    by (cases "sideIntgFactory_instance env nm p s")
      (auto simp: as_ptr_def dest: inv_sideIntgFactory_instance)
qed (use assms in \<open>auto simp: read_rule_def as_ptr_def grows_refl split: option.splits\<close>)

lemma inv_run: "inv env s \<Longrightarrow> inv env (run env xs s) \<and> grows s (run env xs s)"
proof (induction xs arbitrary: s)
  case Nil
  then show ?case by (simp add: grows_refl)
next
  case (Cons x xs)
  obtain res s1 where e: "exec env x s = (res, s1)" by (cases "exec env x s")
  note i1 = inv_exec[OF Cons.prems e]
  show ?case
  proof (cases "res = Inl UndefinedBehaviour")
    case True
    with e i1 show ?thesis by simp
  next
    case False
    with e have "run env (x # xs) s = run env xs s1"
      by (auto split: sum.splits error.splits)
    with Cons.IH[of s1] i1 show ?thesis by (auto intro: grows_trans)
  qed
qed

lemma inv_reachable: "inv env (run env xs init_state)"
  using inv_run[OF inv_init] by blast

lemma returns_instance_cls_instance:
  assumes "inv env s"
  shows "returns_instance (returns (cls_instance env c ord s)) c ord"
proof -
  obtain a s' where c: "cls_instance env c ord s = (a, s')" by (cases "cls_instance env c ord s")
  from assms have "caches_ok s" "alloc_ok s" by (simp_all add: inv_def)
  from cls_instance_is_instance[OF this c] c show ?thesis
    by (simp add: returns_instance_def returns_def)
qed

lemma ex_state_eval:
  "heap ex_state 1 = Some (cached_ctor ex_env Quadq 2)"
  "heap ex_state 2 = Some (cached_ctor ex_env Hexq 2)"
  "heap ex_state 3 = Some (cached_ctor ex_env Tetraq 2)"
  by (simp_all add: ex_state_def as_ptr_def returns_def cls_instance_def init_state_def Let_def)

lemma cache_kept_returns:
  "classInstances s c ord = Some a \<Longrightarrow> returns (cls_instance env c' ord' s) = (res, s') \<Longrightarrow>
   classInstances s' c ord = Some a"
  by (erule returns_cases) (rule cls_instance_cache_mono)

lemma cache_kept_Topo2Intg:
  "classInstances s c ord = Some a \<Longrightarrow> Topo2Intg env ord' nm s = (res, s') \<Longrightarrow>
   classInstances s' c ord = Some a"
  by (erule Topo2Intg_cases) (auto intro: cls_instance_cache_mono)

lemma cache_kept_mk_side_rules:
  "classInstances s c ord = Some a \<Longrightarrow> mk_side_rules env ord' sns s = (res, s') \<Longrightarrow>
   classInstances s' c ord = Some a"
proof (induction sns arbitrary: s res s')
  case Nil
  then show ?case by simp
next
  case (Cons nm nms)
  obtain r1 s1 where t: "Topo2Intg env ord' nm s = (r1, s1)" by (cases "Topo2Intg env ord' nm s")
  from Cons.prems(1) t have k1: "classInstances s1 c ord = Some a" by (rule cache_kept_Topo2Intg)
  show ?case
  proof (cases r1)
    case (Inl e)
    with t Cons.prems(2) k1 show ?thesis by auto
  next
    case (Inr b)
    obtain r2 s2 where m: "mk_side_rules env ord' nms s1 = (r2, s2)"
      by (cases "mk_side_rules env ord' nms s1")
    from Cons.IH[OF k1 m] Cons.prems(2) t Inr m show ?thesis by (auto split: sum.splits)
  qed
qed

lemma cache_kept_sideIntgFactory_instance:
  assumes "classInstances s c ord = Some a" "sideIntgFactory_instance env nm b s = (res, s')"
  shows "classInstances s' c ord = Some a"
  using assms(2)
proof (cases rule: sideIntgFactory_instance_cases)
  case (failed tp r e)
  from assms(1) failed(4) show ?thesis by (rule cache_kept_mk_side_rules)
next
  case (built tp r rs s1)
  from assms(1) built(4) have "classInstances s1 c ord = Some a" by (rule cache_kept_mk_side_rules)
  with built(6) show ?thesis by simp
qed (use assms(1) in simp_all)

lemma cache_kept_exec:
  assumes "classInstances s c ord = Some a" "exec env x s = (res, s')"
  shows "classInstances s' c ord = Some a"
proof (cases x)
  case (NewArbq pdim0 nq pcoord wgts0)
  with assms show ?thesis
    by (auto simp: as_ptr_def new_arbq_def Let_def split: sum.splits)
next
  case (Instance c' ord')
  with assms show ?thesis
    by (cases "returns (cls_instance env c' ord' s)") (auto simp: as_ptr_def dest: cache_kept_returns)
next
  case (SideRule p)
  show ?thesis
  proof (cases "heap s p")
    case None
    with assms SideRule show ?thesis by (simp add: as_ptr_def ptr_side_rule_def)
  next
    case (Some r)
    obtain r1 s1 where e: "side_rule env r s = (r1, s1)" by (cases "side_rule env r s")
    with assms(2) SideRule Some have s1: "s1 = s'" by (simp add: as_ptr_def ptr_side_rule_def)
    from e assms(1) have "classInstances s1 c ord = Some a"
      by (cases "cls r"; cases "case cls r of Cached k \<Rightarrow> k | _ \<Rightarrow> Barq")
        (auto simp: side_rule_def dest: cache_kept_returns)
    with s1 show ?thesis by simp
  qed
next
  case (ChangeOrderTo p ord')
  show ?thesis
  proof (cases "heap s p")
    case None
    with assms ChangeOrderTo show ?thesis by (simp add: as_ptr_def ptr_ChangeOrder_def)
  next
    case (Some r)
    obtain r1 s1 where e: "ChangeOrder env r ord' s = (r1, s1)" by (cases "ChangeOrder env r ord' s")
    with assms(2) ChangeOrderTo Some have s1: "s1 = s'"
      by (simp add: as_ptr_def ptr_ChangeOrder_def)
    from e assms(1) have "classInstances s1 c ord = Some a"
      by (cases "cls r"; cases "case cls r of Cached k \<Rightarrow> k | _ \<Rightarrow> Barq")
        (auto simp: ChangeOrder_def dest: cache_kept_returns)
    with s1 show ?thesis by simp
  qed
next
  case (Dispatch ord' nm)
  with assms show ?thesis
    by (cases "Topo2Intg env ord' nm s") (auto simp: as_ptr_def dest: cache_kept_Topo2Intg)
next
  case (FactoryInstance nm p)
  with assms show ?thesis
    by (cases "sideIntgFactory_instance env nm p s")
      (auto simp: as_ptr_def dest: cache_kept_sideIntgFactory_instance)
qed (use assms in \<open>auto simp: read_rule_def as_ptr_def split: option.splits\<close>)

lemma cache_kept_run:
  "classInstances s c ord = Some a \<Longrightarrow> classInstances (run env xs s) c ord = Some a"
proof (induction xs arbitrary: s)
  case Nil
  then show ?case by simp
next
  case (Cons x xs)
  obtain res s1 where e: "exec env x s = (res, s1)" by (cases "exec env x s")
  from Cons.prems e have k: "classInstances s1 c ord = Some a" by (rule cache_kept_exec)
  show ?case
  proof (cases "res = Inl UndefinedBehaviour")
    case True
    with e k show ?thesis by simp
  next
    case False
    with e have "run env (x # xs) s = run env xs s1"
      by (auto split: sum.splits error.splits)
    with Cons.IH[OF k] show ?thesis by simp
  qed
qed

lemma sideIntgFactory_instance_fmap:
  assumes "sideIntgFactory_instance env nm b s = (Inr f, s')"
  shows "fmap s' (nm, b) = Some f"
  using assms by (cases rule: sideIntgFactory_instance_cases) simp_all

lemma side_rules_for_length:
  "side_rules_for env s ord sns rs \<Longrightarrow> length rs = length sns"
  by (simp add: side_rules_for_def list_all2_lengthD)


lemmas ex_defs = ex_state_def ex_env_def as_ptr_def returns_def cls_instance_def init_state_def
  sideIntgFactory_instance_def Topo2Intg_def order_def cached_ctor_def intgRule_ctor_def Let_def

lemma ex_fstate_eval:
  "sideIntgFactory_instance ex_env ''QUAD'' 0 ex_state = (Inr 4, ex_fstate)"
  "factories ex_fstate 4 =
     Some \<lparr>side_rules = [0, 0, 0, 0],
           topo = \<lparr>topo_pdim = 2, side_shapes = [''BAR'', ''BAR'', ''BAR'', ''BAR'']\<rparr>,
           base = 0\<rparr>"
  "GetTopo ex_env ''QUAD'' =
     Some \<lparr>topo_pdim = 2, side_shapes = [''BAR'', ''BAR'', ''BAR'', ''BAR'']\<rparr>"
  by (simp_all add: ex_fstate_def ex_defs)




lemma gauss_legendre_exact_one:
  "gauss_legendre_exact (Suc 0) xs ws \<longleftrightarrow> xs = [0] \<and> ws = [2]"
proof
  assume e: "gauss_legendre_exact (Suc 0) xs ws"
  then obtain x w where xw: "xs = [x]" "ws = [w]"
    by (auto simp: gauss_legendre_exact_def length_Suc_conv)
  from e have "quadrature_sum xs ws 0 = monomial_integral 0"
    "quadrature_sum xs ws 1 = monomial_integral 1"
    by (simp_all add: gauss_legendre_exact_def upt_rec)
  with xw show "xs = [0] \<and> ws = [2]"
    by (simp add: quadrature_sum_def monomial_integral_def)
next
  assume "xs = [0] \<and> ws = [2]"
  then show "gauss_legendre_exact (Suc 0) xs ws"
    by (simp add: gauss_legendre_exact_def quadrature_sum_def monomial_integral_def upt_rec)
qed

section \<open>Unsupported operations\<close>

text \<open>
  C5. \<open>side_rule()\<close> on an \<open>arbq\<close> rule or on a \<open>barq\<close> rule throws ("No side rule for
  arbq", "No side rule for bar") and returns no rule, and \<open>ChangeOrder\<close> on an \<open>arbq\<close>
  rule throws ("Arbq doesnt swap order"); the state is left as it was. These throws are
  the unsupported-operation error.
\<close>

theorem unsupported_operations_throw:
  "side_rule env (r\<lparr>cls := Arbq\<rparr>) s = (Inl (Throw ''No side rule for arbq''), s)
   \<and> side_rule env (r\<lparr>cls := Cached Barq\<rparr>) s = (Inl (Throw ''No side rule for bar''), s)
   \<and> ChangeOrder env (r\<lparr>cls := Arbq\<rparr>) ord s = (Inl (Throw ''Arbq doesnt swap order''), s)"
  by (simp add: side_rule_def ChangeOrder_def)

section \<open>The rule caches\<close>

text \<open>
  C4. Once \<open>instance(ord)\<close> of a class has returned the rule at address \<open>a\<close>, every later
  call of \<open>instance(ord)\<close> on that class returns the same address \<open>a\<close> and changes
  nothing, whatever operations the process has run in between (none at all included):
  the cache never yields a second instance for the same class and order.
\<close>

theorem instance_identical:
  assumes "cls_instance env c ord s = (a, s1)"
  shows "cls_instance env c ord (run env xs s1) = (a, run env xs s1)"
proof -
  from assms have "classInstances s1 c ord = Some a" by (rule cls_instance_cached)
  then have "classInstances (run env xs s1) c ord = Some a" by (rule cache_kept_run)
  then show ?thesis by (rule cls_instance_hit)
qed

theorem instance_identical_witness:
  "cls_instance ex_env Triq 2 ex_state = (4, snd (cls_instance ex_env Triq 2 ex_state))
   \<and> fst (cls_instance ex_env Triq 2
        (run ex_env [Instance Triq 3, SideRule 3, Instance Triq 2, Dispatch 2 ''TRI'']
          (snd (cls_instance ex_env Triq 2 ex_state)))) = 4"
proof -
  have e: "cls_instance ex_env Triq 2 ex_state = (4, snd (cls_instance ex_env Triq 2 ex_state))"
    by (simp add: ex_state_def as_ptr_def returns_def cls_instance_def init_state_def Let_def)
  show ?thesis
    using instance_identical[OF e,
        of "[Instance Triq 3, SideRule 3, Instance Triq 2, Dispatch 2 ''TRI'']"] e
    by (simp del: run.simps)
qed

text \<open>
  C3. \<open>side_rule()\<close> on a \<open>quadq\<close> rule returns the cached \<open>barq\<close> instance for the
  receiver's own order, on a \<open>hexq\<close> rule the cached \<open>quadq\<close> instance for that order,
  and on a \<open>tetraq\<close> rule the cached \<open>triq\<close> instance for that order; the rule returned
  is of that class and of that order.
\<close>

theorem side_rule_is_cached_instance:
  assumes "inv env s" "heap s p = Some r"
  shows "(cls r = Cached Quadq \<longrightarrow> returns_instance (ptr_side_rule env p s) Barq (order r))
       \<and> (cls r = Cached Hexq \<longrightarrow> returns_instance (ptr_side_rule env p s) Quadq (order r))
       \<and> (cls r = Cached Tetraq \<longrightarrow> returns_instance (ptr_side_rule env p s) Triq (order r))"
  using assms(2) returns_instance_cls_instance[OF assms(1)]
  by (simp add: ptr_side_rule_def side_rule_def order_def)

theorem side_rule_is_cached_instance_witness:
  "returns_instance (ptr_side_rule ex_env 1 ex_state) Barq 2
   \<and> returns_instance (ptr_side_rule ex_env 2 ex_state) Quadq 2
   \<and> returns_instance (ptr_side_rule ex_env 3 ex_state) Triq 2
   \<and> fst (ptr_side_rule ex_env 1 ex_state) = Inr 0
   \<and> fst (ptr_side_rule ex_env 2 ex_state) = Inr 1
   \<and> fst (ptr_side_rule ex_env 3 ex_state) = Inr 4"
proof -
  have i: "inv ex_env ex_state" unfolding ex_state_def by (rule inv_reachable)
  have e: "fst (ptr_side_rule ex_env 1 ex_state) = Inr 0"
    "fst (ptr_side_rule ex_env 2 ex_state) = Inr 1"
    "fst (ptr_side_rule ex_env 3 ex_state) = Inr 4"
    by (simp_all add: ptr_side_rule_def side_rule_def ex_state_def as_ptr_def returns_def
        cls_instance_def init_state_def Let_def cached_ctor_cls cached_ctor_q)
  show ?thesis
    using side_rule_is_cached_instance[OF i ex_state_eval(1)]
      side_rule_is_cached_instance[OF i ex_state_eval(2)]
      side_rule_is_cached_instance[OF i ex_state_eval(3)] e
    by (simp add: cached_ctor_cls cached_ctor_q order_def)
qed

text \<open>
  C6. \<open>ChangeOrder(ord)\<close> on a rule of any of the five cached classes returns the cached
  instance of the receiver's class for the order \<open>ord\<close>, whatever the receiver's own
  order is.
\<close>

theorem ChangeOrder_is_cached_instance:
  assumes "inv env s" "heap s p = Some r" "cls r = Cached c"
  shows "returns_instance (ptr_ChangeOrder env p ord s) c ord"
  using assms(2,3) returns_instance_cls_instance[OF assms(1)]
  by (cases c) (simp_all add: ptr_ChangeOrder_def ChangeOrder_def)

theorem ChangeOrder_is_cached_instance_witness:
  "returns_instance (ptr_ChangeOrder ex_env 1 2 ex_state) Quadq 2
   \<and> ptr_ChangeOrder ex_env 1 2 ex_state = (Inr 1, ex_state)
   \<and> returns_instance (ptr_ChangeOrder ex_env 1 5 ex_state) Quadq 5
   \<and> fst (ptr_ChangeOrder ex_env 1 5 ex_state) = Inr 4"
proof -
  have i: "inv ex_env ex_state" unfolding ex_state_def by (rule inv_reachable)
  have c: "cls (cached_ctor ex_env Quadq 2) = Cached Quadq" by (rule cached_ctor_cls)
  have e: "ptr_ChangeOrder ex_env 1 2 ex_state = (Inr 1, ex_state)"
    "fst (ptr_ChangeOrder ex_env 1 5 ex_state) = Inr 4"
    by (simp_all add: ptr_ChangeOrder_def ChangeOrder_def ex_state_def as_ptr_def returns_def
        cls_instance_def init_state_def Let_def cached_ctor_cls)
  show ?thesis
    using ChangeOrder_is_cached_instance[OF i ex_state_eval(1) c, of 2]
      ChangeOrder_is_cached_instance[OF i ex_state_eval(1) c, of 5] e
    by simp
qed

section \<open>The dispatcher\<close>

text \<open>
  C8. For every order, the dispatcher called with a topology name that matches none of
  the classes fails with the unknown-topology error; it returns no rule and leaves the
  caches as they were.
\<close>

theorem unknown_topology_fails:
  assumes "topo_class env toponame = None"
  shows "Topo2Intg env ord toponame s = (Inl UnknownTopology, s)"
  using assms by (simp add: Topo2Intg_def)

theorem unknown_topology_fails_witness:
  "topo_class ex_env ''PYRAMID'' = None
   \<and> Topo2Intg ex_env 3 ''PYRAMID'' ex_state = (Inl UnknownTopology, ex_state)"
proof -
  have n: "topo_class ex_env ''PYRAMID'' = None" by (simp add: ex_env_def)
  show ?thesis using unknown_topology_fails[OF n, of 3 ex_state] n by simp
qed

section \<open>Arbitrary rules\<close>

text \<open>
  C10. Constructing an \<open>arbq\<close> from \<open>nq\<close> points of dimension \<open>pdim0\<close> (the caller's
  arrays being as long as the constructor reads them) yields a rule whose order and
  point count are both \<open>nq\<close> and whose parametric dimension is \<open>pdim0\<close>; its coordinate
  array holds exactly the first \<open>nq*pdim0\<close> supplied coordinates, the product being the
  \<open>UInt\<close> product the constructor computes; its weight array holds the \<open>nq\<close> supplied
  weights when a weights pointer is given, and is left unwritten when the pointer is null.
\<close>

theorem arbq_constructed:
  assumes "unat (nq * pdim0) \<le> length pcoord"
    and "case wgts0 of None \<Rightarrow> True | Some w \<Rightarrow> unat nq \<le> length w"
  shows "case arbq_ctor pdim0 nq pcoord wgts0 of
           Inl e \<Rightarrow> False
         | Inr r \<Rightarrow>
             cls r = Arbq \<and> order r = nq \<and> npoints r = nq \<and> parametric_dim r = pdim0 \<and>
             length (locations r) = unat (nq * pdim0) \<and>
             locations r = map Some (take (unat (nq * pdim0)) pcoord) \<and>
             length (weights r) = unat nq \<and>
             weights r = (case wgts0 of
                            None \<Rightarrow> replicate (unat nq) None
                          | Some w \<Rightarrow> map Some (take (unat nq) w))"
  using assms
  by (auto simp: arbq_ctor_def Let_def intgRule_ctor_def std_copy_def order_def npoints_def
      parametric_dim_def locations_def weights_def split: option.splits)

theorem arbq_constructed_witness:
  "arbq_ctor 2 3 [1, 2, 3, 4, 5, 6 :: int] None =
     Inr \<lparr>cls = Arbq, q = 3, n = 3, pdim = 2,
          locs = [Some 1, Some 2, Some 3, Some 4, Some 5, Some 6], wgts = [None, None, None]\<rparr>
   \<and> arbq_ctor 2 3 [1, 2, 3, 4, 5, 6 :: int] (Some [7, 8, 9]) =
     Inr \<lparr>cls = Arbq, q = 3, n = 3, pdim = 2,
          locs = [Some 1, Some 2, Some 3, Some 4, Some 5, Some 6],
          wgts = [Some 7, Some 8, Some 9]\<rparr>"
proof -
  have l: "unat (3 * 2 :: UInt) \<le> length [1, 2, 3, 4, 5, 6 :: int]" by simp
  have w: "case Some [7, 8, 9 :: int] of None \<Rightarrow> True | Some w \<Rightarrow> unat (3 :: UInt) \<le> length w"
    by simp
  have n: "case (None :: int list option) of None \<Rightarrow> True | Some w \<Rightarrow> unat (3 :: UInt) \<le> length w"
    by simp
  have r3: "replicate 3 (None :: int option) = [None, None, None]"
    by (simp add: numeral_3_eq_3)
  have e: "arbq_ctor 2 3 [1, 2, 3, 4, 5, 6 :: int] None =
     Inr \<lparr>cls = Arbq, q = 3, n = 3, pdim = 2,
          locs = [Some 1, Some 2, Some 3, Some 4, Some 5, Some 6], wgts = [None, None, None]\<rparr>"
    "arbq_ctor 2 3 [1, 2, 3, 4, 5, 6 :: int] (Some [7, 8, 9]) =
     Inr \<lparr>cls = Arbq, q = 3, n = 3, pdim = 2,
          locs = [Some 1, Some 2, Some 3, Some 4, Some 5, Some 6],
          wgts = [Some 7, Some 8, Some 9]\<rparr>"
    by (simp_all add: arbq_ctor_def Let_def intgRule_ctor_def std_copy_def r3)
  show ?thesis
    using arbq_constructed[OF l n] arbq_constructed[OF l w] e by simp
qed

section \<open>Rules are fixed once constructed\<close>

text \<open>
  C9. For every rule object of a process, whatever operations the process runs later
  (the accessors, \<open>side_rule()\<close>, \<open>ChangeOrder()\<close>, cache and factory calls, new
  \<open>arbq\<close>s), \<open>npoints()\<close>, \<open>order()\<close>, \<open>parametric_dim()\<close>, \<open>locations()\<close> and \<open>weights()\<close>
  return what the object held before; and the coordinate array has \<open>npoints *
  parametric_dim\<close> cells (the \<open>UInt\<close> product) and the weight array \<open>npoints\<close> cells.
\<close>

theorem rule_fixed_and_sized:
  assumes "inv env s" "heap s p = Some r"
  shows "exec env (Npoints p) (run env xs s) = (Inr (Num (npoints r)), run env xs s)
       \<and> exec env (Order p) (run env xs s) = (Inr (Num (order r)), run env xs s)
       \<and> exec env (ParametricDim p) (run env xs s) = (Inr (Num (parametric_dim r)), run env xs s)
       \<and> exec env (Locations p) (run env xs s) = (Inr (Arr (locations r)), run env xs s)
       \<and> exec env (Weights p) (run env xs s) = (Inr (Arr (weights r)), run env xs s)
       \<and> length (locations r) = unat (npoints r * parametric_dim r)
       \<and> length (weights r) = unat (npoints r)"
proof -
  from assms(1) have "grows s (run env xs s)" using inv_run by blast
  then have h: "heap (run env xs s) p = Some r" using assms(2) by (rule grows_heap)
  from assms have "sized r" unfolding inv_def sizes_ok_def by blast
  then have "length (locations r) = unat (npoints r * parametric_dim r)"
    "length (weights r) = unat (npoints r)"
    by (simp_all add: sized_def locations_def weights_def npoints_def parametric_dim_def)
  with h show ?thesis by (simp add: read_rule_def)
qed

theorem rule_fixed_and_sized_witness:
  "fst (exec ex_env (Npoints 1)
      (run ex_env [SideRule 1, ChangeOrderTo 1 7, Locations 1, Weights 1, Instance Quadq 3] ex_state)) = Inr (Num 2)
   \<and> fst (exec ex_env (Order 1)
      (run ex_env [SideRule 1, ChangeOrderTo 1 7, Locations 1, Weights 1, Instance Quadq 3] ex_state)) = Inr (Num 2)
   \<and> fst (exec ex_env (ParametricDim 1)
      (run ex_env [SideRule 1, ChangeOrderTo 1 7, Locations 1, Weights 1, Instance Quadq 3] ex_state)) = Inr (Num 2)
   \<and> fst (exec ex_env (Locations 1)
      (run ex_env [SideRule 1, ChangeOrderTo 1 7, Locations 1, Weights 1, Instance Quadq 3] ex_state))
       = Inr (Arr [Some 0, Some 0, Some 0, Some 0])
   \<and> fst (exec ex_env (Weights 1)
      (run ex_env [SideRule 1, ChangeOrderTo 1 7, Locations 1, Weights 1, Instance Quadq 3] ex_state))
       = Inr (Arr [Some 1, Some 1])"
proof -
  have i: "inv ex_env ex_state" unfolding ex_state_def by (rule inv_reachable)
  have c: "cached_ctor ex_env Quadq 2 =
    \<lparr>cls = Cached Quadq, q = 2, n = 2, pdim = 2,
     locs = [Some 0, Some 0, Some 0, Some 0], wgts = [Some 1, Some 1]\<rparr>"
    by (simp add: cached_ctor_def ex_env_def intgRule_ctor_def upt_rec)
  show ?thesis
    using rule_fixed_and_sized[OF i ex_state_eval(1),
        of "[SideRule 1, ChangeOrderTo 1 7, Locations 1, Weights 1, Instance Quadq 3]"]
    by (simp del: run.simps exec.simps
        add: c npoints_def order_def parametric_dim_def locations_def weights_def)
qed

section \<open>The side rule factory\<close>

text \<open>
  C1, as amended. For the factory that \<open>sideIntgFactory::instance\<close> returns for a
  topology with \<open>k\<close> sides, the factory holds exactly \<open>k\<close> side rules and
  \<open>GetSideRule(i)\<close> returns the \<open>i\<close>-th of them for \<open>i < k\<close>; for \<open>i \<ge> k\<close> the access is not
  checked: no out-of-range error is raised and no result is defined.
\<close>

theorem GetSideRule_unchecked:
  assumes "inv env s" "sideIntgFactory_instance env nm b s = (Inr f, s')"
  shows "case GetTopo env nm of
           None \<Rightarrow> False
         | Some tp \<Rightarrow>
             (case factories s' f of
                None \<Rightarrow> False
              | Some fac \<Rightarrow>
                  length (side_rules fac) = length (side_shapes tp) \<and>
                  (\<forall>i. ptr_GetSideRule f i s' =
                         (if unat i < length (side_shapes tp)
                          then Inr (side_rules fac ! unat i)
                          else Inl UndefinedBehaviour)))"
proof -
  from inv_sideIntgFactory_instance[OF assms] have "fmap_ok env s'" by (simp add: inv_def)
  with sideIntgFactory_instance_fmap[OF assms(2)] have "factory_ok env s' nm b f"
    by (simp add: fmap_ok_def)
  then show ?thesis
    by (auto simp: factory_ok_def ptr_GetSideRule_def GetSideRule_def
        split: option.splits dest: side_rules_for_length)
qed

theorem GetSideRule_unchecked_witness:
  "sideIntgFactory_instance ex_env ''QUAD'' 0 ex_state = (Inr 4, ex_fstate)
   \<and> ptr_GetSideRule 4 0 ex_fstate = Inr 0
   \<and> ptr_GetSideRule 4 3 ex_fstate = Inr 0
   \<and> ptr_GetSideRule 4 5 ex_fstate = Inl UndefinedBehaviour"
proof -
  have i: "inv ex_env ex_state" unfolding ex_state_def by (rule inv_reachable)
  show ?thesis
    using GetSideRule_unchecked[OF i ex_fstate_eval(1)] ex_fstate_eval
    by (simp add: ptr_GetSideRule_def GetSideRule_def)
qed

text \<open>
  C1, as stated, fails: on the factory of the four-sided ''QUAD'', \<open>GetSideRule(4)\<close>
  is an unchecked access, not an out-of-range error.
\<close>

theorem GetSideRule_out_of_range_counterexample:
  "sideIntgFactory_instance ex_env ''QUAD'' 0 ex_state = (Inr 4, ex_fstate)
   \<and> map_option side_rules (factories ex_fstate 4) = Some [0, 0, 0, 0]
   \<and> ptr_GetSideRule 4 4 ex_fstate = Inl UndefinedBehaviour
   \<and> ptr_GetSideRule 4 4 ex_fstate \<noteq> Inl OutOfRange"
  by (simp add: ex_fstate_eval ptr_GetSideRule_def GetSideRule_def)



section \<open>The point generator\<close>

text \<open>
  C7. Called with \<open>n = 1\<close>, \<open>gauss_legendre\<close> produces the single abscissa 0 and the
  single weight 2, and nothing else; the weight is written when a weights array is
  supplied. Called with \<open>n = 0\<close> it fails with the precondition failure and produces
  no output.
\<close>

theorem gauss_legendre_one_and_zero:
  "(gauss_legendre 1 out \<longleftrightarrow> out = Inr ([0], [2]))
   \<and> gauss_legendre_writes True (Inr ([0], [2])) = Inr ([0], Some [2])
   \<and> gauss_legendre_writes False (Inr ([0], [2])) = Inr ([0], None)
   \<and> (gauss_legendre 0 out \<longleftrightarrow> out = Inl PreconditionFailure)"
  by (cases out)
    (auto simp: gauss_legendre_def gauss_legendre_writes_def gauss_legendre_exact_one)

end
